theory Spec2Isabelle
  imports Complex_Main
begin

section \<open>Preliminaries\<close>

text \<open>
  The export pipeline is TypeScript; every \<open>number\<close> of the source is modelled as a
  \<^typ>\<open>real\<close>, so the arithmetic below is the exact arithmetic the source's formulas
  denote; the number of frames of an export, where the rounding of a double decides an
  integer, is computed with that rounding. Optional fields (\<open>clickStart?\<close>) and nullable references are
  \<^typ>\<open>'a option\<close>; objects are records; drawing calls on a graphics object are
  the list of path commands they issue, in order.
\<close>

section \<open>Corner mask geometry (layoutUtils.drawSquirclePath, FrameRenderer.drawSquircleMask)\<close>

datatype path_cmd =
    MoveTo real real
  | LineTo real real
  | BezierCurveTo real real real real real real
  | ClosePath
  | Fill

record corner_flags =
  tl_corner :: bool
  tr_corner :: bool
  bl_corner :: bool
  br_corner :: bool

text \<open>
  \<open>drawSquirclePath(graphics, x, y, width, height, radius, corners)\<close>: the calls made
  on \<open>graphics\<close>, in source order. The locals \<open>tl, tr, bl, br\<close> of the source are
  \<open>tlR, trR, blR, brR\<close> here.
\<close>

definition drawSquirclePath ::
  "real \<Rightarrow> real \<Rightarrow> real \<Rightarrow> real \<Rightarrow> real \<Rightarrow> corner_flags \<Rightarrow> path_cmd list" where
  "drawSquirclePath x y width height radius corners =
    (let maxRadius = min width height / 2;
         r = min radius maxRadius;
         smoothness = 1.28;
         p = smoothness * r * 0.5;
         c = r * 0.5522847498;
         tlR = (if tl_corner corners then r else 0);
         trR = (if tr_corner corners then r else 0);
         blR = (if bl_corner corners then r else 0);
         brR = (if br_corner corners then r else 0);
         tlP = (if tl_corner corners then p else 0);
         trP = (if tr_corner corners then p else 0);
         blP = (if bl_corner corners then p else 0);
         brP = (if br_corner corners then p else 0)
     in [ MoveTo (x + tlR + tlP) y,
          LineTo (x + width - trR - trP) y,
          (if trR > 0
           then BezierCurveTo (x + width - trR + c) y (x + width) (y + trR - c)
                  (x + width) (y + trR + trP)
           else LineTo (x + width) y),
          LineTo (x + width) (y + height - brR - brP),
          (if brR > 0
           then BezierCurveTo (x + width) (y + height - brR + c) (x + width - brR + c)
                  (y + height) (x + width - brR - brP) (y + height)
           else LineTo (x + width) (y + height)),
          LineTo (x + blR + blP) (y + height),
          (if blR > 0
           then BezierCurveTo (x + blR - c) (y + height) x (y + height - blR + c)
                  x (y + height - blR - blP)
           else LineTo x (y + height)),
          LineTo x (y + tlR + tlP),
          (if tlR > 0
           then BezierCurveTo x (y + tlR - c) (x + tlR - c) y (x + tlR + tlP) y
           else LineTo x y),
          ClosePath ])"

text \<open>
  \<open>FrameRenderer.drawSquircleMask\<close> repeats the body of \<open>drawSquirclePath\<close> statement
  for statement on \<open>this.maskGraphics\<close>, behind the guard
  \<open>if (!this.maskGraphics) return\<close>, and ends with \<open>fill\<close>. The first argument says
  whether \<open>this.maskGraphics\<close> is set.
\<close>

definition drawSquircleMask ::
  "bool \<Rightarrow> real \<Rightarrow> real \<Rightarrow> real \<Rightarrow> real \<Rightarrow> real \<Rightarrow> corner_flags \<Rightarrow> path_cmd list" where
  "drawSquircleMask maskGraphics x y width height radius corners =
    (if \<not> maskGraphics then []
     else drawSquirclePath x y width height radius corners @ [Fill])"

fun is_curve :: "path_cmd \<Rightarrow> bool" where
  "is_curve (BezierCurveTo _ _ _ _ _ _) = True"
| "is_curve _ = False"

text \<open>The points a command draws to (control points of a curve included).\<close>

fun vertices_of :: "path_cmd \<Rightarrow> (real \<times> real) list" where
  "vertices_of (MoveTo a b) = [(a, b)]"
| "vertices_of (LineTo a b) = [(a, b)]"
| "vertices_of (BezierCurveTo a b c d e f) = [(a, b), (c, d), (e, f)]"
| "vertices_of ClosePath = []"
| "vertices_of Fill = []"

definition all_disabled :: corner_flags where
  "all_disabled = \<lparr>tl_corner = False, tr_corner = False, bl_corner = False, br_corner = False\<rparr>"

text \<open>
  A point is on the boundary of the rectangle with corners \<open>(x, y)\<close> and
  \<open>(x + w, y + h)\<close> when it is on one of its four sides.
\<close>

definition lies_between :: "real \<Rightarrow> real \<Rightarrow> real \<Rightarrow> bool" where
  "lies_between a b v = (min a b \<le> v \<and> v \<le> max a b)"

definition on_rect_boundary :: "real \<Rightarrow> real \<Rightarrow> real \<Rightarrow> real \<Rightarrow> real \<times> real \<Rightarrow> bool" where
  "on_rect_boundary x y w h pt =
    (((fst pt = x \<or> fst pt = x + w) \<and> lies_between y (y + h) (snd pt)) \<or>
     ((snd pt = y \<or> snd pt = y + h) \<and> lies_between x (x + w) (fst pt)))"

section \<open>Cursor model (cursorTracker, springPhysics)\<close>

record CursorPosition =
  pos_x :: real
  pos_y :: real
  timestamp :: real
  pressed :: bool
  clickStart :: "bool option"
  clickEnd :: "bool option"

record CursorData =
  positions :: "CursorPosition list"
  screenWidth :: real
  screenHeight :: real
  recordedFps :: "real option"

text \<open>
  The search loop of \<open>interpolateCursorPosition\<close>:
  \<open>while (i < positions.length - 1 && positions[i + 1].timestamp < timeMs) i++\<close>.
\<close>

function findSegment :: "CursorPosition list \<Rightarrow> real \<Rightarrow> nat \<Rightarrow> nat" where
  "findSegment ps timeMs i =
    (if i < length ps - 1 \<and> timestamp (ps ! (i + 1)) < timeMs
     then findSegment ps timeMs (i + 1) else i)"
  by pat_completeness auto
termination
  by (relation "measure (\<lambda>(ps, timeMs, i). length ps - i)") auto

declare findSegment.simps [simp del]

text \<open>JavaScript's \<open>a || b\<close> and \<open>c && b\<close> on an optional boolean (\<open>None\<close> is \<open>undefined\<close>).\<close>

definition js_or :: "bool option \<Rightarrow> bool option \<Rightarrow> bool option" where
  "js_or a b = (if a = Some True then a else b)"

definition js_and :: "bool \<Rightarrow> bool option \<Rightarrow> bool option" where
  "js_and c b = (if c then b else Some False)"

text \<open>\<open>interpolateCursorPosition(data, timeMs)\<close>; \<open>None\<close> is \<open>null\<close>.\<close>

definition interpolateCursorPosition :: "CursorData \<Rightarrow> real \<Rightarrow> CursorPosition option" where
  "interpolateCursorPosition data timeMs =
    (let ps = positions data in
     if length ps = 0 then None
     else if length ps = 1 then Some (ps ! 0)
     else
       let i = findSegment ps timeMs 0 in
       if i \<ge> length ps - 1 then Some (ps ! (length ps - 1))
       else
         let p0 = ps ! (max 0 (i - 1));
             p1 = ps ! i;
             p2 = ps ! (min (length ps - 1) (i + 1));
             p3 = ps ! (min (length ps - 1) (i + 2));
             dts = timestamp p2 - timestamp p1;
             t = (timeMs - timestamp p1) / (if dts = 0 then 1 else dts);
             t2 = t * t;
             t3 = t2 * t;
             x = 0.5 * ((2 * pos_x p1) + (- pos_x p0 + pos_x p2) * t
                   + (2 * pos_x p0 - 5 * pos_x p1 + 4 * pos_x p2 - pos_x p3) * t2
                   + (- pos_x p0 + 3 * pos_x p1 - 3 * pos_x p2 + pos_x p3) * t3);
             y = 0.5 * ((2 * pos_y p1) + (- pos_y p0 + pos_y p2) * t
                   + (2 * pos_y p0 - 5 * pos_y p1 + 4 * pos_y p2 - pos_y p3) * t2
                   + (- pos_y p0 + 3 * pos_y p1 - 3 * pos_y p2 + pos_y p3) * t3)
         in Some \<lparr> pos_x = max 0 (min (screenWidth data) x),
                   pos_y = max 0 (min (screenHeight data) y),
                   timestamp = timeMs,
                   pressed = (if t < 0.5 then pressed p1 else pressed p2),
                   clickStart = js_or (clickStart p1) (js_and (t \<ge> 0.5) (clickStart p2)),
                   clickEnd = js_or (clickEnd p1) (js_and (t \<ge> 0.5) (clickEnd p2)) \<rparr>)"

subsection \<open>Spring physics\<close>

record SpringConfig =
  tension :: real
  friction :: real
  mass :: real
  velocity :: real

record SpringState =
  position :: real
  new_velocity :: real

record Spring2DState =
  sx :: real
  sy :: real
  vx :: real
  vy :: real

definition springStep :: "real \<Rightarrow> real \<Rightarrow> real \<Rightarrow> SpringConfig \<Rightarrow> real \<Rightarrow> SpringState" where
  "springStep current target vel config dt =
    (let displacement = current - target;
         springForce = - tension config * displacement;
         dampingForce = - friction config * vel;
         force = springForce + dampingForce;
         acceleration = force / mass config;
         newVelocity = vel + acceleration * dt;
         newPosition = current + newVelocity * dt
     in \<lparr> position = newPosition, new_velocity = newVelocity \<rparr>)"

definition spring2DStep ::
  "Spring2DState \<Rightarrow> real \<Rightarrow> real \<Rightarrow> SpringConfig \<Rightarrow> real \<Rightarrow> Spring2DState" where
  "spring2DStep state targetX targetY config dt =
    (let xResult = springStep (sx state) targetX (vx state) config dt;
         yResult = springStep (sy state) targetY (vy state) config dt
     in \<lparr> sx = position xResult, sy = position yResult,
          vx = new_velocity xResult, vy = new_velocity yResult \<rparr>)"

text \<open>The fields of a \<open>SpringCursorInterpolator\<close> that \<open>update\<close> reads or writes.\<close>

record SpringCursorInterpolator =
  state :: Spring2DState
  config :: SpringConfig
  lastTime :: real
  initialized :: bool

text \<open>
  \<open>SpringCursorInterpolator.update(targetX, targetY, currentTimeMs)\<close>: the returned
  state and the interpolator after the call.
\<close>

definition update ::
  "SpringCursorInterpolator \<Rightarrow> real \<Rightarrow> real \<Rightarrow> real \<Rightarrow> Spring2DState \<times> SpringCursorInterpolator" where
  "update this targetX targetY currentTimeMs =
    (if \<not> initialized this then
       (let s = \<lparr> sx = targetX, sy = targetY, vx = 0, vy = 0 \<rparr>
        in (s, this\<lparr> state := s, lastTime := currentTimeMs, initialized := True \<rparr>))
     else
       let timeDiff = currentTimeMs - lastTime this in
       if timeDiff < - 100 \<or> timeDiff > 500 then
         (let s = \<lparr> sx = targetX, sy = targetY, vx = 0, vy = 0 \<rparr>
          in (s, this\<lparr> state := s, lastTime := currentTimeMs \<rparr>))
       else
         let dt = min (timeDiff / 1000) 0.05;
             this1 = this\<lparr> lastTime := currentTimeMs \<rparr>;
             this2 = (if dt > 0
                      then this1\<lparr> state := spring2DStep (state this1) targetX targetY (config this1) dt \<rparr>
                      else this1)
         in (state this2, this2))"

section \<open>Seeking in the export loop (VideoExporter.export, seekToTime)\<close>

text \<open>
  \<open>seekToTime(time)\<close> closes over \<open>videoInfo.duration\<close> and the video element. The
  model takes the duration and the element's \<open>currentTime\<close>, and returns how the promise
  resolves and the element's \<open>currentTime\<close> after the call. Assigning
  \<open>videoElement.currentTime\<close> starts a seek; the promise then resolves after the
  element's \<open>seeked\<close> event.
\<close>

datatype seek_resolution = Immediately | AfterSeeked

definition clampedTime :: "real \<Rightarrow> real \<Rightarrow> real" where
  "clampedTime duration time = min time (duration - 0.001)"

definition seekToTime :: "real \<Rightarrow> real \<Rightarrow> real \<Rightarrow> seek_resolution \<times> real" where
  "seekToTime duration currentTime time =
    (if \<bar>currentTime - clampedTime duration time\<bar> < 0.001
     then (Immediately, currentTime)
     else (AfterSeeked, clampedTime duration time))"


section \<open>Animation and camera driver (FrameRenderer.updateAnimationState)\<close>

record ZoomFocus =
  cx :: real
  cy :: real

record ZoomRegion =
  region_id :: string
  startMs :: real
  endMs :: real
  depth :: nat
  focus :: ZoomFocus

record AnimationState =
  scale :: real
  focusX :: real
  focusY :: real

text \<open>
  The driver imports \<open>findDominantRegion\<close>, \<open>clampFocusToStage\<close> (as
  \<open>clampFocusToStageUtil\<close>), \<open>ZOOM_DEPTH_SCALES\<close>, \<open>DEFAULT_FOCUS\<close>,
  \<open>SMOOTHING_FACTOR\<close> and \<open>MIN_DELTA\<close> from modules of the editor
  (\<open>videoPlayback/zoomRegionUtils\<close>, \<open>focusUtils\<close>, \<open>constants\<close>, \<open>types\<close>). They are
  parameters of the model: two pure functions, a table and three constants. The type
  \<open>'l\<close> is the layout cache handed to \<open>clampFocusToStageUtil\<close>.
\<close>

record 'l driver_params =
  findDominantRegion :: "ZoomRegion list \<Rightarrow> real \<Rightarrow> ZoomRegion option \<times> real"
  clampFocusToStageUtil :: "ZoomFocus \<Rightarrow> nat \<Rightarrow> 'l \<Rightarrow> ZoomFocus"
  ZOOM_DEPTH_SCALES :: "nat \<Rightarrow> real"
  DEFAULT_FOCUS :: ZoomFocus
  SMOOTHING_FACTOR :: real
  MIN_DELTA :: real

text \<open>
  The fields of a \<open>FrameRenderer\<close> that the driver reads or writes: \<open>config.zoomRegions\<close>,
  \<open>animationState\<close>, \<open>layoutCache\<close> (\<open>None\<close> is \<open>null\<close>) and whether \<open>cameraContainer\<close>
  is set.
\<close>

record 'l FrameRenderer =
  zoomRegions :: "ZoomRegion list"
  animationState :: AnimationState
  layoutCache :: "'l option"
  cameraContainer :: bool

text \<open>The constructor: the animation state starts at scale 1 and the default focus.\<close>

definition newFrameRenderer :: "'l driver_params \<Rightarrow> ZoomRegion list \<Rightarrow> 'l FrameRenderer" where
  "newFrameRenderer P regions =
    \<lparr> zoomRegions = regions,
      animationState = \<lparr> scale = 1, focusX = cx (DEFAULT_FOCUS P), focusY = cy (DEFAULT_FOCUS P) \<rparr>,
      layoutCache = None,
      cameraContainer = False \<rparr>"

text \<open>\<open>FrameRenderer.clampFocusToStage(focus, depth)\<close>.\<close>

definition clampFocusToStage ::
  "'l driver_params \<Rightarrow> 'l FrameRenderer \<Rightarrow> ZoomFocus \<Rightarrow> nat \<Rightarrow> ZoomFocus" where
  "clampFocusToStage P this fc d =
    (case layoutCache this of
       None \<Rightarrow> fc
     | Some cache \<Rightarrow> clampFocusToStageUtil P fc d cache)"

text \<open>
  \<open>FrameRenderer.updateAnimationState(timeMs)\<close>: the returned motion intensity and the
  renderer after the call (only \<open>animationState\<close> is written).
\<close>

definition updateAnimationState ::
  "'l driver_params \<Rightarrow> 'l FrameRenderer \<Rightarrow> real \<Rightarrow> real \<times> 'l FrameRenderer" where
  "updateAnimationState P this timeMs =
    (if \<not> cameraContainer this \<or> layoutCache this = None then (0, this)
     else
       let (region, strength) = findDominantRegion P (zoomRegions this) timeMs;
           defaultFocus = DEFAULT_FOCUS P;
           (targetScaleFactor, targetFocus) =
             (case region of
                Some rg \<Rightarrow>
                  if strength > 0 then
                    (let zoomScale = ZOOM_DEPTH_SCALES P (depth rg);
                         regionFocus = clampFocusToStage P this (focus rg) (depth rg)
                     in (1 + (zoomScale - 1) * strength,
                         \<lparr> cx = cx defaultFocus + (cx regionFocus - cx defaultFocus) * strength,
                           cy = cy defaultFocus + (cy regionFocus - cy defaultFocus) * strength \<rparr>))
                  else (1, defaultFocus)
              | None \<Rightarrow> (1, defaultFocus));
           state = animationState this;
           prevScale = scale state;
           prevFocusX = focusX state;
           prevFocusY = focusY state;
           scaleDelta = targetScaleFactor - scale state;
           focusXDelta = cx targetFocus - focusX state;
           focusYDelta = cy targetFocus - focusY state;
           nextScale = (if \<bar>scaleDelta\<bar> > MIN_DELTA P
                        then prevScale + scaleDelta * SMOOTHING_FACTOR P
                        else targetScaleFactor);
           nextFocusX = (if \<bar>focusXDelta\<bar> > MIN_DELTA P
                         then prevFocusX + focusXDelta * SMOOTHING_FACTOR P
                         else cx targetFocus);
           nextFocusY = (if \<bar>focusYDelta\<bar> > MIN_DELTA P
                         then prevFocusY + focusYDelta * SMOOTHING_FACTOR P
                         else cy targetFocus)
       in (max \<bar>nextScale - prevScale\<bar>
             (max \<bar>nextFocusX - prevFocusX\<bar> \<bar>nextFocusY - prevFocusY\<bar>),
           this\<lparr> animationState :=
                   \<lparr> scale = nextScale, focusX = nextFocusX, focusY = nextFocusY \<rparr> \<rparr>))"

text \<open>
  The target of a tick, as the first half of \<open>updateAnimationState\<close> computes it:
  the target scale factor and the target focus at \<open>timeMs\<close>.
\<close>

definition animationTarget ::
  "'l driver_params \<Rightarrow> 'l FrameRenderer \<Rightarrow> real \<Rightarrow> AnimationState" where
  "animationTarget P this timeMs =
    (let (region, strength) = findDominantRegion P (zoomRegions this) timeMs;
         defaultFocus = DEFAULT_FOCUS P
     in case region of
          Some rg \<Rightarrow>
            if strength > 0 then
              (let zoomScale = ZOOM_DEPTH_SCALES P (depth rg);
                   regionFocus = clampFocusToStage P this (focus rg) (depth rg)
               in \<lparr> scale = 1 + (zoomScale - 1) * strength,
                    focusX = cx defaultFocus + (cx regionFocus - cx defaultFocus) * strength,
                    focusY = cy defaultFocus + (cy regionFocus - cy defaultFocus) * strength \<rparr>)
            else \<lparr> scale = 1, focusX = cx defaultFocus, focusY = cy defaultFocus \<rparr>
        | None \<Rightarrow> \<lparr> scale = 1, focusX = cx defaultFocus, focusY = cy defaultFocus \<rparr>)"

text \<open>
  The smoothing of one component, as the second half of \<open>updateAnimationState\<close> applies
  it to the scale and to each focus coordinate.
\<close>

definition approach :: "real \<Rightarrow> real \<Rightarrow> real \<Rightarrow> real \<Rightarrow> real" where
  "approach smoothing minDelta target current =
    (if \<bar>target - current\<bar> > minDelta
     then current + (target - current) * smoothing
     else target)"

text \<open>
  The renderer after \<open>n\<close> ticks, the \<open>k\<close>-th of them at the requested timestamp
  \<open>ts k\<close>.
\<close>

primrec ticks ::
  "'l driver_params \<Rightarrow> (nat \<Rightarrow> real) \<Rightarrow> nat \<Rightarrow> 'l FrameRenderer \<Rightarrow> 'l FrameRenderer" where
  "ticks P ts 0 this = this"
| "ticks P ts (Suc n) this = snd (updateAnimationState P (ticks P ts n this) (ts n))"




section \<open>Animation and camera driver of the live preview (VideoPlayback, ticker)\<close>








section \<open>Frame rate resolution (VideoFileDecoder)\<close>




















section \<open>Export orchestration (VideoExporter)\<close>

record DecodedVideoInfo =
  width :: real
  height :: real
  duration :: real
  frameRate :: real
  codec :: string

datatype ExportResult = Success | Failure string

record ExportProgress =
  currentFrame :: int
  totalFrames :: int
  percentage :: real
  estimatedTimeRemaining :: real

text \<open>
  What \<open>encoder.encode(exportFrame, {keyFrame})\<close> is handed: the \<open>timestamp\<close> and the
  \<open>duration\<close> of the frame made from the canvas, in microseconds, and the key frame flag.
\<close>

record encoded_frame =
  frame_timestamp :: real
  frame_duration :: real
  keyFrame :: bool

text \<open>
  The callbacks that can run while \<open>export\<close> is suspended in an \<open>await\<close>: a call of
  \<open>cancel()\<close>, the encoder's \<open>error\<close> callback, and the encoder's \<open>output\<close> callback.
\<close>

datatype async_event = CancelCall | EncoderError | ChunkOutput

text \<open>
  The state of an export in its loop. \<open>encoderConfigured\<close>: \<open>this.encoder\<close> is set and
  its state is \<open>'configured'\<close>; \<open>rendererAlive\<close>, \<open>muxerAlive\<close>: \<open>this.renderer\<close>,
  \<open>this.muxer\<close> are set; \<open>elementTime\<close> is \<open>videoElement.currentTime\<close>. The last three
  fields are traces, not program state: the frames handed to the encoder, the progress
  callbacks made, and the callbacks that ran, each in order.
\<close>

record exporter =
  cancelled :: bool
  encoderConfigured :: bool
  rendererAlive :: bool
  muxerAlive :: bool
  encodeQueue :: int
  chunkCount :: nat
  frameIndex :: int
  elementTime :: real
  encoded :: "encoded_frame list"
  progress :: "ExportProgress list"
  delivered :: "async_event list"

definition MAX_ENCODE_QUEUE :: int where
  "MAX_ENCODE_QUEUE = 16"

text \<open>
  \<open>cleanup()\<close>: closes and drops the encoder, destroys and drops the decoder and the
  renderer, drops the muxer, resets the counters.
\<close>

definition cleanup :: "exporter \<Rightarrow> exporter" where
  "cleanup st =
    st\<lparr> encoderConfigured := False, rendererAlive := False, muxerAlive := False,
        encodeQueue := 0, chunkCount := 0 \<rparr>"

text \<open>
  One callback. \<open>cancel()\<close> sets the flag and cleans up. The \<open>error\<close> callback sets the
  flag; the encoder that reports an error is closed, so its state is no longer
  \<open>'configured'\<close>. The \<open>output\<close> callback counts the chunk, hands it to the muxer and
  decrements the queue.
\<close>

fun deliver :: "async_event \<Rightarrow> exporter \<Rightarrow> exporter" where
  "deliver CancelCall st =
     cleanup (st\<lparr> cancelled := True, delivered := delivered st @ [CancelCall] \<rparr>)"
| "deliver EncoderError st =
     st\<lparr> cancelled := True, encoderConfigured := False,
         delivered := delivered st @ [EncoderError] \<rparr>"
| "deliver ChunkOutput st =
     st\<lparr> chunkCount := chunkCount st + 1, encodeQueue := encodeQueue st - 1,
         delivered := delivered st @ [ChunkOutput] \<rparr>"

fun deliverAll :: "async_event list \<Rightarrow> exporter \<Rightarrow> exporter" where
  "deliverAll [] st = st"
| "deliverAll (e # es) st = deliverAll es (deliver e st)"

text \<open>
  What the environment does during one iteration of the loop:
  the callbacks that run while the seek is awaited (when \<open>seekToTime\<close> does not resolve
  at once); \<open>None\<close> when \<open>videoElement.readyState >= 2\<close>, else the callbacks that run
  while readiness is awaited; whether \<open>new VideoFrame(videoElement, ...)\<close> succeeds;
  the message of the error \<open>renderFrame\<close> throws, if it throws; the callbacks that run
  during each 5 ms wait for encoder queue space; and \<open>performance.now()\<close> when the
  progress is computed.
\<close>

record frame_env =
  seek_events :: "async_event list"
  ready_wait :: "async_event list option"
  frame_ok :: bool
  render_error :: "string option"
  queue_polls :: "async_event list list"
  now :: real

text \<open>The constants of the loop, fixed by the initialisation.\<close>

record loop_setup =
  info_duration :: real
  export_rate :: real
  total_frames :: int
  startTime :: real
  onProgress :: bool

text \<open>
  JavaScript's \<open>a % b\<close> on numbers: the remainder of the truncated division, \<open>NaN\<close>
  (\<open>None\<close>) for a zero divisor.
\<close>

definition trunc :: "real \<Rightarrow> int" where
  "trunc v = (if v \<ge> 0 then \<lfloor>v\<rfloor> else \<lceil>v\<rceil>)"

definition js_rem :: "real \<Rightarrow> real \<Rightarrow> real option" where
  "js_rem a b = (if b = 0 then None else Some (a - b * of_int (trunc (a / b))))"

text \<open>
  \<open>while (this.encodeQueue >= this.MAX_ENCODE_QUEUE && !this.cancelled) await ...\<close>:
  whether the loop is left, and the state then. With no poll left while the loop still
  waits, it is never left.
\<close>

fun awaitQueue :: "exporter \<Rightarrow> async_event list list \<Rightarrow> bool \<times> exporter" where
  "awaitQueue st [] =
     (if encodeQueue st \<ge> MAX_ENCODE_QUEUE \<and> \<not> cancelled st then (False, st) else (True, st))"
| "awaitQueue st (evs # polls) =
     (if encodeQueue st \<ge> MAX_ENCODE_QUEUE \<and> \<not> cancelled st
      then awaitQueue (deliverAll evs st) polls
      else (True, st))"

datatype step_end = Continue | Throws string | Hangs

text \<open>
  Reading a method of \<open>this.renderer\<close> when it is \<open>null\<close> throws a \<open>TypeError\<close>; the
  message is the one of the V8 engine.
\<close>

definition null_renderer_message :: string where
  "null_renderer_message = ''Cannot read properties of null (reading 'renderFrame')''"

text \<open>
  The body of the \<open>while\<close> loop of \<open>export\<close>, for the frame \<open>frameIndex\<close>. The locals
  \<open>timestamp\<close>, \<open>frameDuration\<close> and \<open>timeStep\<close> of the source are \<open>stamp\<close>,
  \<open>frameDur\<close> and \<open>step\<close> here.
\<close>

definition iteration :: "loop_setup \<Rightarrow> exporter \<Rightarrow> frame_env \<Rightarrow> step_end \<times> exporter" where
  "iteration C st env =
    (let frameDur = 1000000 / export_rate C;
         step = 1 / export_rate C;
         i = frameIndex st;
         stamp = of_int i * frameDur;
         videoTime = min (of_int i * step) (info_duration C - 0.001);
         sought = seekToTime (info_duration C) (elementTime st) videoTime;
         st1 = (if fst sought = AfterSeeked
                then deliverAll (seek_events env) (st\<lparr> elementTime := snd sought \<rparr>)
                else st);
         st2 = (case ready_wait env of None \<Rightarrow> st1 | Some evs \<Rightarrow> deliverAll evs st1)
     in if \<not> frame_ok env then (Continue, st2\<lparr> frameIndex := frameIndex st2 + 1 \<rparr>)
        else if \<not> rendererAlive st2 then (Throws null_renderer_message, st2)
        else case render_error env of
          Some msg \<Rightarrow> (Throws msg, st2)
        | None \<Rightarrow>
            (case awaitQueue st2 (queue_polls env) of
               (False, st3) \<Rightarrow> (Hangs, st3)
             | (True, st3) \<Rightarrow>
                 let st4 = (if encoderConfigured st3
                            then st3\<lparr> encodeQueue := encodeQueue st3 + 1,
                                     encoded := encoded st3 @
                                       [\<lparr> frame_timestamp = stamp, frame_duration = frameDur,
                                          keyFrame = (js_rem (of_int i) (export_rate C) = Some 0) \<rparr>] \<rparr>
                            else st3);
                     st5 = st4\<lparr> frameIndex := frameIndex st4 + 1 \<rparr>;
                     elapsed = (now env - startTime C) / 1000;
                     fps = of_int (frameIndex st5) / elapsed;
                     remaining = (of_int (total_frames C) - of_int (frameIndex st5)) / fps;
                     st6 = (if onProgress C
                            then st5\<lparr> progress := progress st5 @
                                     [\<lparr> currentFrame = frameIndex st5,
                                        totalFrames = total_frames C,
                                        percentage = (of_int (frameIndex st5) / of_int (total_frames C)) * 100,
                                        estimatedTimeRemaining = remaining \<rparr>] \<rparr>
                            else st5)
                 in (Continue, st6)))"

datatype loop_end = LoopExit | Thrown string | NeverResumes

text \<open>
  \<open>while (frameIndex < totalFrames && !this.cancelled) { ... }\<close>, one \<open>frame_env\<close> per
  iteration. When the environment has nothing more to offer while the loop still wants
  to run, the awaited event never comes and the loop never resumes.
\<close>

fun exportLoop :: "loop_setup \<Rightarrow> exporter \<Rightarrow> frame_env list \<Rightarrow> loop_end \<times> exporter" where
  "exportLoop C st [] =
     (if frameIndex st < total_frames C \<and> \<not> cancelled st then (NeverResumes, st) else (LoopExit, st))"
| "exportLoop C st (env # script) =
     (if frameIndex st < total_frames C \<and> \<not> cancelled st then
        (case iteration C st env of
           (Continue, st1) \<Rightarrow> exportLoop C st1 script
         | (Throws msg, st1) \<Rightarrow> (Thrown msg, st1)
         | (Hangs, st1) \<Rightarrow> (NeverResumes, st1))
      else (LoopExit, st))"

text \<open>
  What the environment does before and after the loop. Before: \<open>loadVideo\<close> rejects with
  a message or resolves with the video's info; \<open>renderer.initialize()\<close> or
  \<open>muxer.initialize()\<close> may throw; the encoder configuration is supported in hardware or
  in software, or in neither; \<open>performance.now()\<close> at the start; the element's current
  time; and the callbacks that run while the first seek, to 0, is awaited. After: the
  callbacks that run while the encoder flush and the muxing promises are awaited, and
  the message of a rejected flush or of a failed \<open>muxer.finalize()\<close>.
\<close>

record export_env =
  load_result :: "string + DecodedVideoInfo"
  renderer_init_error :: "string option"
  hardware_supported :: bool
  software_supported :: bool
  muxer_init_error :: "string option"
  start_now :: real
  element_time :: real
  first_seek_events :: "async_event list"
  flush_events :: "async_event list"
  flush_error :: "string option"
  finalize_error :: "string option"

definition cancelled_message :: string where
  "cancelled_message = ''Export cancelled''"

definition muxer_destroyed_message :: string where
  "muxer_destroyed_message = ''Muxer was destroyed before finalization''"

definition encoding_unsupported_message :: string where
  "encoding_unsupported_message = ''Video encoding not supported on this system''"

text \<open>The exporter when the loop is entered, after the first seek.\<close>

definition loop_start :: "real \<Rightarrow> export_env \<Rightarrow> exporter" where
  "loop_start dur E =
    (let st = \<lparr> cancelled = False, encoderConfigured = True, rendererAlive = True,
                muxerAlive = True, encodeQueue = 0, chunkCount = 0, frameIndex = 0,
                elementTime = element_time E, encoded = [], progress = [], delivered = [] \<rparr>;
         sought = seekToTime dur (elementTime st) 0
     in if fst sought = AfterSeeked
        then deliverAll (first_seek_events E) (st\<lparr> elementTime := snd sought \<rparr>)
        else st)"

text \<open>
  The numbers of the program are IEEE 754 doubles; the model computes over the reals.
  The number of frames is the one place where the rounding of a double decides a
  discrete result, so there the product is rounded as the program's is. \<open>binade x\<close>
  is the power of two with \<open>binade x \<le> x < 2 * binade x\<close>, for a positive \<open>x\<close>;
  \<open>toDouble\<close> rounds a real to the nearest number with 53 significant bits, a tie to
  the one with an even significand. Overflow and subnormal numbers are left out:
  durations and frame rates are far from both.
\<close>

function binade :: "real \<Rightarrow> real" where
  "binade x =
    (if 2 \<le> x then 2 * binade (x / 2)
     else if 0 < x \<and> x < 1 then binade (2 * x) / 2
     else 1)"
  by pat_completeness auto
termination
proof (relation "measure (\<lambda>x. if 1 \<le> x then nat \<lfloor>log 2 x\<rfloor> else nat \<lceil>- log 2 x\<rceil>)")
  show "wf (measure (\<lambda>x::real. if 1 \<le> x then nat \<lfloor>log 2 x\<rfloor> else nat \<lceil>- log 2 x\<rceil>))"
    by simp
next
  fix x :: real
  assume a: "2 \<le> x"
  then have l: "log 2 (x / 2) = log 2 x - 1" by (simp add: log_divide)
  have "1 \<le> log 2 x" using a by (simp add: le_log_iff)
  then have "1 \<le> \<lfloor>log 2 x\<rfloor>" by linarith
  then show "(x / 2, x) \<in> measure (\<lambda>x. if 1 \<le> x then nat \<lfloor>log 2 x\<rfloor> else nat \<lceil>- log 2 x\<rceil>)"
    using a l by simp
next
  fix x :: real
  assume "\<not> 2 \<le> x" and a: "0 < x \<and> x < 1"
  then have l: "log 2 (2 * x) = 1 + log 2 x" by (simp add: log_mult)
  have neg: "log 2 x < 0" using a by simp
  then have c: "1 \<le> \<lceil>- log 2 x\<rceil>" by linarith
  show "(2 * x, x) \<in> measure (\<lambda>x. if 1 \<le> x then nat \<lfloor>log 2 x\<rfloor> else nat \<lceil>- log 2 x\<rceil>)"
  proof (cases "1 \<le> 2 * x")
    case True
    have "\<lfloor>log 2 (2 * x)\<rfloor> \<le> 0" using l neg by linarith
    then show ?thesis using True a c by simp
  next
    case False
    have "- log 2 (2 * x) = - log 2 x - 1" using l by simp
    then have "\<lceil>- log 2 (2 * x)\<rceil> = \<lceil>- log 2 x\<rceil> - 1" by (simp only: ceiling_diff_one)
    then show ?thesis using False a c by simp
  qed
qed

declare binade.simps [simp del]

definition roundTiesToEven :: "real \<Rightarrow> int" where
  "roundTiesToEven q =
    (let f = \<lfloor>q\<rfloor>
     in if q - of_int f < 1 / 2 then f
        else if q - of_int f > 1 / 2 then f + 1
        else if even f then f else f + 1)"

definition toDouble :: "real \<Rightarrow> real" where
  "toDouble x =
    (if x = 0 then 0
     else let ulp = binade \<bar>x\<bar> / 2 ^ 52
          in sgn x * of_int (roundTiesToEven (\<bar>x\<bar> / ulp)) * ulp)"

text \<open>The product \<open>a * b\<close> of two doubles, as the program computes it.\<close>

definition double_mul :: "real \<Rightarrow> real \<Rightarrow> real" where
  "double_mul a b = toDouble (a * b)"

text \<open>
  The constants of the loop: the export frame rate and the number of frames,
  \<open>Math.ceil(videoInfo.duration * this.config.frameRate)\<close>.
\<close>

definition setup_of :: "real \<Rightarrow> bool \<Rightarrow> export_env \<Rightarrow> DecodedVideoInfo \<Rightarrow> loop_setup" where
  "setup_of configFrameRate progressCallback E videoInfo =
    (let exportFrameRate = (if configFrameRate > 0 then configFrameRate else frameRate videoInfo)
     in \<lparr> info_duration = duration videoInfo,
          export_rate = exportFrameRate,
          total_frames = \<lceil>double_mul (duration videoInfo) exportFrameRate\<rceil>,
          startTime = start_now E,
          onProgress = progressCallback \<rparr>)"

text \<open>
  \<open>VideoExporter.export()\<close>, for a configured frame rate (0 asks for the source's) and
  with or without a progress callback: the result, \<open>None\<close> when the promise never
  settles, and the exporter at the end, after the \<open>finally\<close> clause. The decoder
  holds the video element once \<open>loadVideo\<close> has resolved, so the check for the element
  passes. Callbacks that run during the initialisation are not modelled.
\<close>

definition export_run ::
  "real \<Rightarrow> bool \<Rightarrow> export_env \<Rightarrow> frame_env list \<Rightarrow> ExportResult option \<times> exporter" where
  "export_run configFrameRate progressCallback E script =
    (let idle = \<lparr> cancelled = False, encoderConfigured = False, rendererAlive = False,
                  muxerAlive = False, encodeQueue = 0, chunkCount = 0, frameIndex = 0,
                  elementTime = element_time E, encoded = [], progress = [], delivered = [] \<rparr>
     in case load_result E of
          Inl msg \<Rightarrow> (Some (Failure msg), idle)
        | Inr videoInfo \<Rightarrow>
            (case renderer_init_error E of
               Some msg \<Rightarrow> (Some (Failure msg), idle)
             | None \<Rightarrow>
                 if \<not> hardware_supported E \<and> \<not> software_supported E
                 then (Some (Failure encoding_unsupported_message), idle)
                 else case muxer_init_error E of
                   Some msg \<Rightarrow> (Some (Failure msg), idle)
                 | None \<Rightarrow>
                     let C = setup_of configFrameRate progressCallback E videoInfo in
                     (case exportLoop C (loop_start (duration videoInfo) E) script of
                        (NeverResumes, st) \<Rightarrow> (None, st)
                      | (Thrown msg, st) \<Rightarrow> (Some (Failure msg), cleanup st)
                      | (LoopExit, st) \<Rightarrow>
                          if cancelled st then (Some (Failure cancelled_message), cleanup st)
                          else
                            let st1 = deliverAll (flush_events E) st in
                            (case flush_error E of
                               Some msg \<Rightarrow> (Some (Failure msg), cleanup st1)
                             | None \<Rightarrow>
                                 if \<not> muxerAlive st1
                                 then (Some (Failure muxer_destroyed_message), cleanup st1)
                                 else case finalize_error E of
                                   Some msg \<Rightarrow> (Some (Failure msg), cleanup st1)
                                 | None \<Rightarrow> (Some Success, cleanup st1)))))"

section \<open>Auxiliary notions for the export loop\<close>

text \<open>
  The exporter after the two waits that open an iteration (the seek, and readiness), as
  \<open>iteration\<close> computes it before it makes the frame.
\<close>

definition after_waits :: "loop_setup \<Rightarrow> exporter \<Rightarrow> frame_env \<Rightarrow> exporter" where
  "after_waits C st env =
    (let sought = seekToTime (info_duration C) (elementTime st)
                    (min (of_int (frameIndex st) * (1 / export_rate C)) (info_duration C - 0.001));
         st1 = (if fst sought = AfterSeeked
                then deliverAll (seek_events env) (st\<lparr> elementTime := snd sought \<rparr>)
                else st)
     in case ready_wait env of None \<Rightarrow> st1 | Some evs \<Rightarrow> deliverAll evs st1)"

text \<open>
  The frame that the loop hands to the encoder for the frame index \<open>i\<close> at the export
  frame rate \<open>rate\<close>.
\<close>

definition frame_for :: "real \<Rightarrow> int \<Rightarrow> encoded_frame" where
  "frame_for rate i =
    \<lparr> frame_timestamp = of_int i * (1000000 / rate),
      frame_duration = 1000000 / rate,
      keyFrame = (js_rem (of_int i) rate = Some 0) \<rparr>"

text \<open>
  The progress callbacks made so far are consistent with the frame index: the index is
  not negative, and every reported \<open>currentFrame\<close> is at most the index, with the
  \<open>percentage\<close> computed from it and a positive \<open>totalFrames\<close> equal to \<open>n\<close>.
\<close>

definition progress_consistent :: "int \<Rightarrow> exporter \<Rightarrow> bool" where
  "progress_consistent n st =
    (0 \<le> frameIndex st
     \<and> sorted (map currentFrame (progress st))
     \<and> list_all (\<lambda>p. currentFrame p \<le> frameIndex st \<and> totalFrames p = n \<and> 0 < n
                     \<and> percentage p = (of_int (currentFrame p) / of_int n) * 100)
          (progress st))"






section \<open>Sample inputs\<close>

text \<open>A recording whose last cursor sample lies outside the recorded screen.\<close>

definition off_screen_data :: CursorData where
  "off_screen_data =
    \<lparr> positions =
        [\<lparr> pos_x = 0, pos_y = 0, timestamp = 0, pressed = False,
           clickStart = None, clickEnd = None \<rparr>,
         \<lparr> pos_x = 5000, pos_y = 5000, timestamp = 10, pressed = False,
           clickStart = None, clickEnd = None \<rparr>],
      screenWidth = 1920, screenHeight = 1080, recordedFps = None \<rparr>"

text \<open>An initialised interpolator with the \<open>cursor\<close> preset, last updated at 0 ms.\<close>

definition demo_interpolator :: SpringCursorInterpolator where
  "demo_interpolator =
    \<lparr> state = \<lparr> sx = 0, sy = 0, vx = 0, vy = 0 \<rparr>,
      config = \<lparr> tension = 180, friction = 22, mass = 1.2, velocity = 0 \<rparr>,
      lastTime = 0, initialized = True \<rparr>"

text \<open>
  Sample parameters: one zoom region is dominant with full strength between its start
  and its end, depth \<open>d\<close> zooms by \<open>1 + d / 2\<close>, the focus is not moved by clamping,
  smoothing factor 1/2 and minimal delta 1/100.
\<close>

definition demo_params :: "unit driver_params" where
  "demo_params =
    \<lparr> findDominantRegion =
        (\<lambda>regions t. case filter (\<lambda>r. startMs r \<le> t \<and> t \<le> endMs r) regions of
                         [] \<Rightarrow> (None, 0)
                       | r # _ \<Rightarrow> (Some r, 1)),
      clampFocusToStageUtil = (\<lambda>fc d cache. fc),
      ZOOM_DEPTH_SCALES = (\<lambda>d. 1 + real d / 2),
      DEFAULT_FOCUS = \<lparr> cx = 0.5, cy = 0.5 \<rparr>,
      SMOOTHING_FACTOR = 0.5,
      MIN_DELTA = 0.01 \<rparr>"

definition demo_region :: ZoomRegion where
  "demo_region =
    \<lparr> region_id = ''zoom-1'', startMs = 1000, endMs = 3000, depth = 2,
      focus = \<lparr> cx = 0.3, cy = 0.3 \<rparr> \<rparr>"

definition demo_renderer :: "unit FrameRenderer" where
  "demo_renderer =
    (newFrameRenderer demo_params [demo_region])
      \<lparr> layoutCache := Some (), cameraContainer := True \<rparr>"




text \<open>A source of an eighth of a second at 24 frames per second: three frames to export.\<close>

definition demo_info :: DecodedVideoInfo where
  "demo_info =
    \<lparr> width = 1920, height = 1080, duration = 0.125, frameRate = 24,
      codec = ''avc1.640033'' \<rparr>"

definition demo_env :: export_env where
  "demo_env =
    \<lparr> load_result = Inr demo_info, renderer_init_error = None,
      hardware_supported = True, software_supported = True, muxer_init_error = None,
      start_now = 0, element_time = 0, first_seek_events = [],
      flush_events = [], flush_error = None, finalize_error = None \<rparr>"

text \<open>
  An iteration in which nothing goes wrong, its progress computed at the wall-clock time
  \<open>t\<close>.
\<close>

definition smooth_at :: "real \<Rightarrow> frame_env" where
  "smooth_at t =
    \<lparr> seek_events = [], ready_wait = None, frame_ok = True, render_error = None,
      queue_polls = [[ChunkOutput]], now = t \<rparr>"

definition demo_script :: "frame_env list" where
  "demo_script = [smooth_at 16, smooth_at 33, smooth_at 50]"









section \<open>Animation driver: the update as a smoothing step\<close>

lemma updateAnimationState_active:
  assumes cam: "cameraContainer this" and lay: "layoutCache this = Some cache"
  shows "updateAnimationState P this timeMs =
       (let tg = animationTarget P this timeMs;
           st = animationState this;
           nx = \<lparr> scale = approach (SMOOTHING_FACTOR P) (MIN_DELTA P) (scale tg) (scale st),
                  focusX = approach (SMOOTHING_FACTOR P) (MIN_DELTA P) (focusX tg) (focusX st),
                  focusY = approach (SMOOTHING_FACTOR P) (MIN_DELTA P) (focusY tg) (focusY st) \<rparr>
       in (max \<bar>scale nx - scale st\<bar> (max \<bar>focusX nx - focusX st\<bar> \<bar>focusY nx - focusY st\<bar>),
           this\<lparr> animationState := nx \<rparr>))"
proof -
  obtain region strength where fdr: "findDominantRegion P (zoomRegions this) timeMs = (region, strength)"
    by (cases "findDominantRegion P (zoomRegions this) timeMs") auto
  show ?thesis
  proof (cases region)
    case None
    show ?thesis
      by (simp add: updateAnimationState_def animationTarget_def approach_def Let_def
          cam lay fdr None split del: if_split cong: if_cong)
  next
    case (Some rg)
    show ?thesis
    proof (cases "strength > 0")
      case True
      show ?thesis
      by (simp add: updateAnimationState_def animationTarget_def approach_def Let_def
          cam lay fdr Some True split del: if_split cong: if_cong)
    next
      case False
      show ?thesis
      by (simp add: updateAnimationState_def animationTarget_def approach_def Let_def
          cam lay fdr Some False split del: if_split cong: if_cong)
    qed
  qed
qed

lemma animationTarget_cong:
  assumes "zoomRegions a = zoomRegions b" and "layoutCache a = layoutCache b"
  shows "animationTarget P a t = animationTarget P b t"
proof -
  have h: "clampFocusToStage P a = clampFocusToStage P b"
    using assms(2) by (simp add: fun_eq_iff clampFocusToStage_def)
  show ?thesis unfolding animationTarget_def assms(1) h by (rule refl)
qed

lemma update_preserves:
  "zoomRegions (snd (updateAnimationState P this t)) = zoomRegions this
   \<and> layoutCache (snd (updateAnimationState P this t)) = layoutCache this
   \<and> cameraContainer (snd (updateAnimationState P this t)) = cameraContainer this"
proof (cases "cameraContainer this \<and> layoutCache this \<noteq> None")
  case True
  then obtain cache where "layoutCache this = Some cache" by auto
  with True show ?thesis by (simp add: updateAnimationState_active Let_def)
next
  case False
  then show ?thesis by (auto simp add: updateAnimationState_def)
qed

section \<open>Export loop: what the callbacks and the waits leave unchanged\<close>

lemma deliver_keeps:
  "frameIndex (deliver e st) = frameIndex st \<and> progress (deliver e st) = progress st
   \<and> encoded (deliver e st) = encoded st \<and> elementTime (deliver e st) = elementTime st"
  by (cases e) (simp_all add: cleanup_def)

lemma deliverAll_keeps:
  "frameIndex (deliverAll es st) = frameIndex st \<and> progress (deliverAll es st) = progress st
   \<and> encoded (deliverAll es st) = encoded st \<and> elementTime (deliverAll es st) = elementTime st"
  by (induction es arbitrary: st) (simp_all add: deliver_keeps)

lemma awaitQueue_keeps:
  "frameIndex (snd (awaitQueue st polls)) = frameIndex st
   \<and> progress (snd (awaitQueue st polls)) = progress st
   \<and> encoded (snd (awaitQueue st polls)) = encoded st"
  by (induction polls arbitrary: st) (simp_all add: deliverAll_keeps)

lemma after_waits_keeps:
  "frameIndex (after_waits C st env) = frameIndex st
   \<and> progress (after_waits C st env) = progress st
   \<and> encoded (after_waits C st env) = encoded st"
  by (simp add: after_waits_def Let_def deliverAll_keeps split: option.split)

lemma iteration_unfold:
  "iteration C st env =
    (let st2 = after_waits C st env in
     if \<not> frame_ok env then (Continue, st2\<lparr> frameIndex := frameIndex st2 + 1 \<rparr>)
     else if \<not> rendererAlive st2 then (Throws null_renderer_message, st2)
     else case render_error env of
       Some msg \<Rightarrow> (Throws msg, st2)
     | None \<Rightarrow>
         (case awaitQueue st2 (queue_polls env) of
            (False, st3) \<Rightarrow> (Hangs, st3)
          | (True, st3) \<Rightarrow>
              let st4 = (if encoderConfigured st3
                         then st3\<lparr> encodeQueue := encodeQueue st3 + 1,
                                  encoded := encoded st3 @ [frame_for (export_rate C) (frameIndex st)] \<rparr>
                         else st3);
                  st5 = st4\<lparr> frameIndex := frameIndex st4 + 1 \<rparr>;
                  st6 = (if onProgress C
                         then st5\<lparr> progress := progress st5 @
                                  [\<lparr> currentFrame = frameIndex st5,
                                     totalFrames = total_frames C,
                                     percentage = (of_int (frameIndex st5) / of_int (total_frames C)) * 100,
                                     estimatedTimeRemaining =
                                       (of_int (total_frames C) - of_int (frameIndex st5))
                                        / (of_int (frameIndex st5) / ((now env - startTime C) / 1000)) \<rparr>] \<rparr>
                         else st5)
              in (Continue, st6)))"
  unfolding iteration_def after_waits_def frame_for_def Let_def
  by (rule refl)


lemma cleanup_keeps:
  "frameIndex (cleanup st) = frameIndex st \<and> progress (cleanup st) = progress st
   \<and> encoded (cleanup st) = encoded st"
  by (simp add: cleanup_def)

lemma binade_unit: "1 \<le> x \<Longrightarrow> x < 2 \<Longrightarrow> binade x = 1"
  by (simp add: binade.simps)

lemma binade_half: "2 \<le> x \<Longrightarrow> binade x = 2 * binade (x / 2)"
  by (subst binade.simps) simp

section \<open>Corner mask geometry: a mask with every corner disabled\<close>

text \<open>
  Claim C8. For every rectangle \<open>(x, y, w, h)\<close> and every radius, the squircle path with
  all four corner flags disabled is exactly a move to \<open>(x, y)\<close>, straight lines through
  the four corners of the rectangle and \<open>closePath\<close>: no bezier segment is issued, and
  every vertex is a corner of the rectangle, hence on its boundary. The renderer's mask
  is that same path followed by the fill.
\<close>

theorem squircle_all_corners_disabled:
  "drawSquirclePath x y w h radius all_disabled =
     [MoveTo x y, LineTo (x + w) y, LineTo (x + w) y, LineTo (x + w) (y + h),
      LineTo (x + w) (y + h), LineTo x (y + h), LineTo x (y + h), LineTo x y,
      LineTo x y, ClosePath]
   \<and> drawSquircleMask True x y w h radius all_disabled =
       drawSquirclePath x y w h radius all_disabled @ [Fill]
   \<and> drawSquircleMask False x y w h radius all_disabled = []
   \<and> filter is_curve (drawSquircleMask True x y w h radius all_disabled) = []
   \<and> list_all (on_rect_boundary x y w h)
        (concat (map vertices_of (drawSquircleMask True x y w h radius all_disabled)))
   \<and> set (concat (map vertices_of (drawSquircleMask True x y w h radius all_disabled)))
       = {(x, y), (x + w, y), (x + w, y + h), (x, y + h)}"
proof -
  have path: "drawSquirclePath x y w h radius all_disabled =
     [MoveTo x y, LineTo (x + w) y, LineTo (x + w) y, LineTo (x + w) (y + h),
      LineTo (x + w) (y + h), LineTo x (y + h), LineTo x (y + h), LineTo x y,
      LineTo x y, ClosePath]"
    by (simp add: drawSquirclePath_def all_disabled_def Let_def)
  show ?thesis
    unfolding drawSquircleMask_def path
    by (auto simp add: on_rect_boundary_def lies_between_def)
qed

text \<open>The mask of a 1920 by 1080 frame at the origin, radius 24, drawn with all corners off.\<close>

theorem squircle_all_corners_disabled_witness:
  "drawSquircleMask True 0 0 1920 1080 24 all_disabled =
     [MoveTo 0 0, LineTo 1920 0, LineTo 1920 0, LineTo 1920 1080, LineTo 1920 1080,
      LineTo 0 1080, LineTo 0 1080, LineTo 0 0, LineTo 0 0, ClosePath, Fill]"
  using squircle_all_corners_disabled [of 0 0 1920 1080 24] by simp

section \<open>Cursor spring: reset on a time discontinuity\<close>

lemma spring2DStep_explicit:
  "spring2DStep s targetX targetY cfg dt =
    \<lparr> sx = sx s + (vx s + (- tension cfg * (sx s - targetX) - friction cfg * vx s) / mass cfg * dt) * dt,
      sy = sy s + (vy s + (- tension cfg * (sy s - targetY) - friction cfg * vy s) / mass cfg * dt) * dt,
      vx = vx s + (- tension cfg * (sx s - targetX) - friction cfg * vx s) / mass cfg * dt,
      vy = vy s + (- tension cfg * (sy s - targetY) - friction cfg * vy s) / mass cfg * dt \<rparr>"
  by (simp add: spring2DStep_def springStep_def Let_def)

text \<open>
  Claim C6. On every update of an initialised interpolator: when the new timestamp is
  more than 500 ms after, or more than 100 ms before, the previous update's timestamp,
  the velocity becomes exactly zero and the position exactly the new target, on that
  update. Otherwise the spring advances by one integration step of
  \<open>dt = min (timeDiff / 1000) 0.05\<close> seconds, that is at most 50 ms: on each axis the
  velocity becomes \<open>v' = v + (- tension * (p - target) - friction * v) / mass * dt\<close> and
  the position \<open>p + v' * dt\<close> (when \<open>dt\<close> is not positive the state is left as it
  is). In both cases the timestamp is remembered.
\<close>

theorem spring_update_after_init:
  assumes "initialized this"
  shows "(currentTimeMs - lastTime this > 500 \<or> currentTimeMs - lastTime this < - 100 \<longrightarrow>
            update this targetX targetY currentTimeMs =
              (\<lparr> sx = targetX, sy = targetY, vx = 0, vy = 0 \<rparr>,
               this\<lparr> state := \<lparr> sx = targetX, sy = targetY, vx = 0, vy = 0 \<rparr>,
                     lastTime := currentTimeMs \<rparr>))
       \<and> (\<not> (currentTimeMs - lastTime this > 500 \<or> currentTimeMs - lastTime this < - 100) \<longrightarrow>
            (let dt = min ((currentTimeMs - lastTime this) / 1000) 0.05;
                 k = tension (config this);
                 c = friction (config this);
                 m = mass (config this);
                 s = state this;
                 vx' = vx s + (- k * (sx s - targetX) - c * vx s) / m * dt;
                 vy' = vy s + (- k * (sy s - targetY) - c * vy s) / m * dt;
                 s' = (if 0 < dt
                       then \<lparr> sx = sx s + vx' * dt, sy = sy s + vy' * dt, vx = vx', vy = vy' \<rparr>
                       else s)
             in dt \<le> 0.05 \<and>
                s' = (if 0 < dt then spring2DStep s targetX targetY (config this) dt else s) \<and>
                update this targetX targetY currentTimeMs =
                  (s', this\<lparr> lastTime := currentTimeMs, state := s' \<rparr>)))"
proof (cases "currentTimeMs - lastTime this > 500 \<or> currentTimeMs - lastTime this < - 100")
  case True
  then show ?thesis using assms by (auto simp add: update_def Let_def)
next
  case False
  then have "\<not> (currentTimeMs - lastTime this < - 100 \<or> 500 < currentTimeMs - lastTime this)"
    by auto
  then show ?thesis
    using assms False unfolding update_def Let_def spring2DStep_explicit
    by (simp del: min_less_iff_conj)
qed

text \<open>
  A seek from 0 ms to 1000 ms snaps the cursor to the target \<open>(100, 50)\<close>; a frame 16 ms
  later takes one 16 ms step instead, from rest at the origin to \<open>(3.84, 1.92)\<close> with
  velocity \<open>(240, 120)\<close>; a frame 200 ms later takes a step of 50 ms only, to
  \<open>(37.5, 18.75)\<close> with velocity \<open>(750, 375)\<close>.
\<close>

theorem spring_update_after_init_witness:
  "initialized demo_interpolator
   \<and> fst (update demo_interpolator 100 50 1000) = \<lparr> sx = 100, sy = 50, vx = 0, vy = 0 \<rparr>
   \<and> fst (update demo_interpolator 100 50 16) = \<lparr> sx = 3.84, sy = 1.92, vx = 240, vy = 120 \<rparr>
   \<and> fst (update demo_interpolator 100 50 200) = \<lparr> sx = 37.5, sy = 18.75, vx = 750, vy = 375 \<rparr>
   \<and> lastTime (snd (update demo_interpolator 100 50 16)) = 16"
  using spring_update_after_init [of demo_interpolator 1000 100 50]
    spring_update_after_init [of demo_interpolator 16 100 50]
    spring_update_after_init [of demo_interpolator 200 100 50]
  by (simp add: demo_interpolator_def Let_def)

section \<open>Seeking: the clamp and the early return\<close>




section \<open>Cursor interpolation: totality and the clamp\<close>

lemma findSegment_some_after:
  "i < j \<Longrightarrow> j < length ps \<Longrightarrow> \<not> timestamp (ps ! j) < t \<Longrightarrow>
   findSegment ps t i < length ps - 1"
proof (induction ps t i rule: findSegment.induct)
  case (1 ps t i)
  show ?case
  proof (cases "timestamp (ps ! (i + 1)) < t")
    case True
    then have "i + 1 \<noteq> j" using 1(4) by auto
    then have "i + 1 < j" using 1(2) by simp
    with True 1 show ?thesis by (subst findSegment.simps) auto
  next
    case False
    with 1(2,3) show ?thesis by (subst findSegment.simps) auto
  qed
qed

lemma findSegment_all_before:
  "i \<le> length ps - 1 \<Longrightarrow>
   (\<forall>j. i < j \<and> j < length ps \<longrightarrow> timestamp (ps ! j) < t) \<Longrightarrow>
   findSegment ps t i = length ps - 1"
proof (induction ps t i rule: findSegment.induct)
  case (1 ps t i)
  show ?case
  proof (cases "i < length ps - 1")
    case True
    then have "timestamp (ps ! (i + 1)) < t" using 1(3) by auto
    with True 1 show ?thesis by (subst findSegment.simps) auto
  next
    case False
    with 1(2) show ?thesis by (subst findSegment.simps) auto
  qed
qed

lemma findSegment_in_range:
  "i \<le> length ps - 1 \<Longrightarrow> findSegment ps t i \<le> length ps - 1"
  by (induction ps t i rule: findSegment.induct) (subst findSegment.simps, auto)

lemma clamp_bounds:
  "0 \<le> hi \<Longrightarrow> 0 \<le> max 0 (min hi (v::real)) \<and> max 0 (min hi v) \<le> hi"
  by auto

lemma interpolate_inside_form:
  assumes len: "2 \<le> length (positions data)"
    and seg: "findSegment (positions data) timeMs 0 < length (positions data) - 1"
  shows "\<exists>x y pr cs ce. interpolateCursorPosition data timeMs =
           Some \<lparr> pos_x = max 0 (min (screenWidth data) x),
                  pos_y = max 0 (min (screenHeight data) y),
                  timestamp = timeMs, pressed = pr, clickStart = cs, clickEnd = ce \<rparr>"
proof -
  have a: "length (positions data) \<noteq> 0" "length (positions data) \<noteq> 1"
    "\<not> length (positions data) - 1 \<le> findSegment (positions data) timeMs 0"
    using len seg by auto
  show ?thesis
    unfolding interpolateCursorPosition_def Let_def
    by (simp only: a if_False) blast
qed

lemma interpolate_inside:
  assumes len: "2 \<le> length (positions data)"
    and j: "0 < j" "j < length (positions data)" "\<not> timestamp (positions data ! j) < timeMs"
    and sw: "0 \<le> screenWidth data" and sh: "0 \<le> screenHeight data"
  shows "\<exists>q. interpolateCursorPosition data timeMs = Some q
        \<and> 0 \<le> pos_x q \<and> pos_x q \<le> screenWidth data
        \<and> 0 \<le> pos_y q \<and> pos_y q \<le> screenHeight data"
proof -
  have "findSegment (positions data) timeMs 0 < length (positions data) - 1"
    using findSegment_some_after [OF j] .
  from interpolate_inside_form [OF len this]
  obtain x y pr cs ce where "interpolateCursorPosition data timeMs =
           Some \<lparr> pos_x = max 0 (min (screenWidth data) x),
                  pos_y = max 0 (min (screenHeight data) y),
                  timestamp = timeMs, pressed = pr, clickStart = cs, clickEnd = ce \<rparr>"
    by blast
  then show ?thesis
    using clamp_bounds [OF sw, of x] clamp_bounds [OF sh, of y] by simp
qed

lemma interpolate_past_all:
  assumes len: "2 \<le> length (positions data)"
    and all: "\<forall>j. 0 < j \<and> j < length (positions data) \<longrightarrow>
                timestamp (positions data ! j) < timeMs"
  shows "interpolateCursorPosition data timeMs = Some (last (positions data))"
proof -
  have "findSegment (positions data) timeMs 0 = length (positions data) - 1"
    using findSegment_all_before [of 0 "positions data" timeMs] all by simp
  moreover have "positions data \<noteq> []" using len by auto
  ultimately show ?thesis using len
    by (simp add: interpolateCursorPosition_def Let_def last_conv_nth)
qed

lemma sorted_timestamps_before:
  assumes "sorted (map timestamp ps)" and "ps \<noteq> []" and "timestamp (last ps) < t"
    and "j < length ps"
  shows "timestamp (ps ! j) < t"
proof -
  have "map timestamp ps ! j \<le> map timestamp ps ! (length ps - 1)"
    using assms by (intro sorted_nth_mono) auto
  then have "timestamp (ps ! j) \<le> timestamp (last ps)"
    using assms by (simp add: last_conv_nth)
  then show ?thesis using assms(3) by simp
qed

text \<open>
  Claim C10, as amended. \<open>interpolateCursorPosition\<close> is total (its search stops at
  an index inside the list, so every sample it reads exists); it returns \<open>null\<close>
  exactly when the positions list is empty; with a single sample it returns that sample
  unchanged; for a query time past every sample after the first (so, on samples sorted
  by time, past the last sample) it returns the last sample unchanged, whatever its
  coordinates; and in the remaining case, where two or more samples exist and one after
  the first is not before the query time, the returned coordinates are the spline's
  clamped to \<open>0 \<le> x \<le> screenWidth\<close> and \<open>0 \<le> y \<le> screenHeight\<close>, for a screen whose
  width and height are not negative.
\<close>

theorem interpolateCursorPosition_total_clamped:
  "((interpolateCursorPosition data timeMs = None) = (positions data = []))
   \<and> (positions data = [p] \<longrightarrow> interpolateCursorPosition data timeMs = Some p)
   \<and> (sorted (map timestamp (positions data)) \<and> positions data \<noteq> []
        \<and> timestamp (last (positions data)) < timeMs \<longrightarrow>
        interpolateCursorPosition data timeMs = Some (last (positions data)))
   \<and> (2 \<le> length (positions data)
        \<and> (\<forall>j. 0 < j \<and> j < length (positions data) \<longrightarrow>
               timestamp (positions data ! j) < timeMs) \<longrightarrow>
        interpolateCursorPosition data timeMs = Some (last (positions data)))
   \<and> (2 \<le> length (positions data)
        \<and> (\<exists>j. 0 < j \<and> j < length (positions data)
               \<and> \<not> timestamp (positions data ! j) < timeMs)
        \<and> 0 \<le> screenWidth data \<and> 0 \<le> screenHeight data \<longrightarrow>
        (\<exists>q. interpolateCursorPosition data timeMs = Some q
           \<and> 0 \<le> pos_x q \<and> pos_x q \<le> screenWidth data
           \<and> 0 \<le> pos_y q \<and> pos_y q \<le> screenHeight data))
   \<and> (positions data \<noteq> [] \<longrightarrow>
        findSegment (positions data) timeMs 0 < length (positions data))"
proof (intro conjI impI)
  show "(interpolateCursorPosition data timeMs = None) = (positions data = [])"
    by (auto simp add: interpolateCursorPosition_def Let_def)
  show "interpolateCursorPosition data timeMs = Some p" if "positions data = [p]"
    using that by (simp add: interpolateCursorPosition_def Let_def)
  show "interpolateCursorPosition data timeMs = Some (last (positions data))"
    if h: "sorted (map timestamp (positions data)) \<and> positions data \<noteq> []
        \<and> timestamp (last (positions data)) < timeMs"
  proof (cases "length (positions data) = 1")
    case True
    then show ?thesis
      by (auto simp add: interpolateCursorPosition_def Let_def last_conv_nth)
  next
    case False
    moreover from h have "length (positions data) \<noteq> 0" by simp
    ultimately have "2 \<le> length (positions data)" by linarith
    moreover have "\<forall>j. 0 < j \<and> j < length (positions data) \<longrightarrow>
        timestamp (positions data ! j) < timeMs"
      using sorted_timestamps_before h by blast
    ultimately show ?thesis by (rule interpolate_past_all)
  qed
  show "interpolateCursorPosition data timeMs = Some (last (positions data))"
    if "2 \<le> length (positions data)
        \<and> (\<forall>j. 0 < j \<and> j < length (positions data) \<longrightarrow>
               timestamp (positions data ! j) < timeMs)"
    using that interpolate_past_all by blast
  show "\<exists>q. interpolateCursorPosition data timeMs = Some q
           \<and> 0 \<le> pos_x q \<and> pos_x q \<le> screenWidth data
           \<and> 0 \<le> pos_y q \<and> pos_y q \<le> screenHeight data"
    if "2 \<le> length (positions data)
        \<and> (\<exists>j. 0 < j \<and> j < length (positions data)
               \<and> \<not> timestamp (positions data ! j) < timeMs)
        \<and> 0 \<le> screenWidth data \<and> 0 \<le> screenHeight data"
    using that interpolate_inside by blast
  show "findSegment (positions data) timeMs 0 < length (positions data)"
    if "positions data \<noteq> []"
  proof -
    have "findSegment (positions data) timeMs 0 \<le> length (positions data) - 1"
      by (rule findSegment_in_range) simp
    then show ?thesis using that by (cases "positions data") simp_all
  qed
qed

text \<open>
  On the sample recording: at 5 ms, between the two samples, the spline value 2500 is
  clamped to the screen; at 20 ms, past the last sample, the last sample is returned.
\<close>

theorem interpolateCursorPosition_total_clamped_witness:
  "interpolateCursorPosition off_screen_data 5 \<noteq> None
   \<and> (\<exists>q. interpolateCursorPosition off_screen_data 5 = Some q
         \<and> 0 \<le> pos_x q \<and> pos_x q \<le> 1920 \<and> 0 \<le> pos_y q \<and> pos_y q \<le> 1080)
   \<and> interpolateCursorPosition off_screen_data 20 = Some (last (positions off_screen_data))"
proof -
  have inside: "2 \<le> length (positions off_screen_data)
        \<and> (\<exists>j. 0 < j \<and> j < length (positions off_screen_data)
               \<and> \<not> timestamp (positions off_screen_data ! j) < 5)
        \<and> 0 \<le> screenWidth off_screen_data \<and> 0 \<le> screenHeight off_screen_data"
    by (auto simp add: off_screen_data_def intro!: exI [of _ 1])
  have past: "sorted (map timestamp (positions off_screen_data))
        \<and> positions off_screen_data \<noteq> []
        \<and> timestamp (last (positions off_screen_data)) < 20"
    by (simp add: off_screen_data_def)
  have ne: "positions off_screen_data \<noteq> []"
    by (simp add: off_screen_data_def)
  have dims: "screenWidth off_screen_data = 1920" "screenHeight off_screen_data = 1080"
    by (simp_all add: off_screen_data_def)
  show ?thesis
    using interpolateCursorPosition_total_clamped [of off_screen_data 5]
      interpolateCursorPosition_total_clamped [of off_screen_data 20]
      inside past ne dims
    by metis
qed

text \<open>
  The claim as stated fails: with two samples and a query time past the last one, the
  last sample is returned as recorded, and a sample recorded outside the screen stays
  outside.
\<close>

theorem interpolateCursorPosition_last_unclamped:
  "interpolateCursorPosition off_screen_data 20 =
     Some \<lparr> pos_x = 5000, pos_y = 5000, timestamp = 10, pressed = False,
            clickStart = None, clickEnd = None \<rparr>
   \<and> \<not> (5000 \<le> screenWidth off_screen_data)
   \<and> \<not> (5000 \<le> screenHeight off_screen_data)"
  by (simp add: interpolateCursorPosition_def off_screen_data_def findSegment.simps)

section \<open>Animation driver: convergence to a constant target\<close>

lemma ticks_preserves:
  "zoomRegions (ticks P ts n this) = zoomRegions this
   \<and> layoutCache (ticks P ts n this) = layoutCache this
   \<and> cameraContainer (ticks P ts n this) = cameraContainer this"
  by (induction n) (simp_all add: update_preserves)

lemma approach_fixed: "0 \<le> md \<Longrightarrow> approach sf md tg tg = tg"
  by (simp add: approach_def)

lemma approach_funpow_fixed: "0 \<le> md \<Longrightarrow> (approach sf md tg ^^ n) tg = tg"
  by (induction n) (simp_all add: approach_fixed)

lemma approach_reaches:
  assumes sf: "0 < sf" "sf < 1" and md: "0 < md"
  shows "\<bar>tg - c\<bar> * (1 - sf) ^ m \<le> md \<Longrightarrow> (approach sf md tg ^^ Suc m) c = tg"
proof (induction m arbitrary: c)
  case 0
  then show ?case by (simp add: approach_def)
next
  case (Suc m)
  show ?case
  proof (cases "\<bar>tg - c\<bar> > md")
    case True
    define c' where "c' = c + (tg - c) * sf"
    have step: "approach sf md tg c = c'" using True by (simp add: approach_def c'_def)
    have "tg - c' = (tg - c) * (1 - sf)" by (simp add: c'_def algebra_simps)
    then have "\<bar>tg - c'\<bar> = \<bar>tg - c\<bar> * (1 - sf)" using sf by (simp add: abs_mult)
    then have "\<bar>tg - c'\<bar> * (1 - sf) ^ m \<le> md" using Suc.prems by (simp add: mult.assoc)
    then have "(approach sf md tg ^^ Suc m) c' = tg" by (rule Suc.IH)
    then show ?thesis using step by (simp add: funpow_swap1)
  next
    case False
    then have "approach sf md tg c = tg" by (simp add: approach_def)
    then have "(approach sf md tg ^^ Suc (Suc m)) c = (approach sf md tg ^^ Suc m) tg"
      by (simp add: funpow_swap1)
    then show ?thesis using approach_funpow_fixed [where md = md and sf = sf and tg = tg and n = "Suc m"] md by simp
  qed
qed

lemma approach_converges:
  assumes sf: "0 < sf" "sf < 1" and md: "0 < md"
  shows "\<exists>N. \<forall>n\<ge>N. (approach sf md tg ^^ n) c = tg"
proof -
  have "\<exists>m. \<bar>tg - c\<bar> * (1 - sf) ^ m \<le> md"
  proof (cases "tg = c")
    case True
    then show ?thesis using md by simp
  next
    case False
    then have pos: "0 < \<bar>tg - c\<bar>" by simp
    then have "0 < md / \<bar>tg - c\<bar>" using md by simp
    moreover have "1 - sf < 1" using sf by simp
    ultimately obtain m where "(1 - sf) ^ m < md / \<bar>tg - c\<bar>"
      using real_arch_pow_inv by blast
    then have "(1 - sf) ^ m * \<bar>tg - c\<bar> < md" using pos by (simp add: pos_less_divide_eq)
    then show ?thesis by (auto simp add: mult.commute intro: less_imp_le)
  qed
  then obtain m where m: "\<bar>tg - c\<bar> * (1 - sf) ^ m \<le> md" ..
  have reach: "(approach sf md tg ^^ Suc m) c = tg"
    using approach_reaches [OF sf md m] .
  have "\<forall>n\<ge>Suc m. (approach sf md tg ^^ n) c = tg"
  proof (intro allI impI)
    fix n assume "Suc m \<le> n"
    then obtain k where n: "n = k + Suc m" by (metis le_add_diff_inverse2)
    have "(approach sf md tg ^^ n) c = (approach sf md tg ^^ k) ((approach sf md tg ^^ Suc m) c)"
      unfolding n by (simp only: funpow_add o_apply)
    then show "(approach sf md tg ^^ n) c = tg"
      using reach approach_funpow_fixed [where md = md and sf = sf and tg = tg and n = k] md by simp
  qed
  then show ?thesis by blast
qed

lemma ticks_constant_target:
  assumes cam: "cameraContainer this" and lay: "layoutCache this = Some cache"
    and tgt: "\<forall>k. animationTarget P this (ts k) = T"
  shows "animationState (ticks P ts n this) =
     \<lparr> scale = (approach (SMOOTHING_FACTOR P) (MIN_DELTA P) (scale T) ^^ n) (scale (animationState this)),
       focusX = (approach (SMOOTHING_FACTOR P) (MIN_DELTA P) (focusX T) ^^ n) (focusX (animationState this)),
       focusY = (approach (SMOOTHING_FACTOR P) (MIN_DELTA P) (focusY T) ^^ n) (focusY (animationState this)) \<rparr>"
proof (induction n)
  case 0
  then show ?case by simp
next
  case (Suc n)
  let ?r = "ticks P ts n this"
  have pres: "cameraContainer ?r" "layoutCache ?r = Some cache" "zoomRegions ?r = zoomRegions this"
    using ticks_preserves [of P ts n this] cam lay by simp_all
  have "animationTarget P ?r (ts n) = animationTarget P this (ts n)"
    by (rule animationTarget_cong) (simp_all add: pres lay)
  then have tg: "animationTarget P ?r (ts n) = T" using tgt by simp
  show ?case
    by (simp add: updateAnimationState_active [OF pres(1,2)] Let_def tg Suc.IH)
qed

text \<open>
  Claim C3. With \<open>0 < SMOOTHING_FACTOR < 1\<close> and \<open>MIN_DELTA > 0\<close>, on an initialised
  renderer (camera container and layout cache set, as \<open>renderFrame\<close> ensures), for every
  animation state and every sequence of requested timestamps at which the target
  \<open>{scale, focus}\<close> is the same \<open>T\<close>: from some tick on, the state is exactly \<open>T\<close>, at
  every later tick as well. Each component moves by
  \<open>current + (target - current) * SMOOTHING_FACTOR\<close> while its delta exceeds
  \<open>MIN_DELTA\<close> and snaps to the target once the delta is at most \<open>MIN_DELTA\<close>.
\<close>

theorem animation_converges:
  assumes sf: "0 < SMOOTHING_FACTOR P" "SMOOTHING_FACTOR P < 1" and md: "0 < MIN_DELTA P"
    and cam: "cameraContainer this" and lay: "layoutCache this \<noteq> None"
    and tgt: "\<forall>k. animationTarget P this (ts k) = T"
  shows "\<exists>N. \<forall>n\<ge>N. animationState (ticks P ts n this) = T"
proof -
  obtain cache where lay': "layoutCache this = Some cache" using lay by auto
  obtain N1 where N1: "\<forall>n\<ge>N1. (approach (SMOOTHING_FACTOR P) (MIN_DELTA P) (scale T) ^^ n) (scale (animationState this)) = scale T"
    using approach_converges [OF sf md] by blast
  obtain N2 where N2: "\<forall>n\<ge>N2. (approach (SMOOTHING_FACTOR P) (MIN_DELTA P) (focusX T) ^^ n) (focusX (animationState this)) = focusX T"
    using approach_converges [OF sf md] by blast
  obtain N3 where N3: "\<forall>n\<ge>N3. (approach (SMOOTHING_FACTOR P) (MIN_DELTA P) (focusY T) ^^ n) (focusY (animationState this)) = focusY T"
    using approach_converges [OF sf md] by blast
  have "\<forall>n\<ge>max N1 (max N2 N3). animationState (ticks P ts n this) = T"
    using N1 N2 N3 by (simp add: ticks_constant_target [OF cam lay' tgt])
  then show ?thesis by blast
qed

text \<open>
  With smoothing 1/2 and minimal delta 1/100, ticking inside the sample region (target
  scale 2, focus (0.3, 0.3)) from the initial state (1, 0.5, 0.5).
\<close>

theorem animation_converges_witness:
  "0 < SMOOTHING_FACTOR demo_params \<and> SMOOTHING_FACTOR demo_params < 1
   \<and> 0 < MIN_DELTA demo_params
   \<and> animationState demo_renderer = \<lparr> scale = 1, focusX = 0.5, focusY = 0.5 \<rparr>
   \<and> (\<exists>N. \<forall>n\<ge>N. animationState (ticks demo_params (\<lambda>k. 2000) n demo_renderer)
                  = \<lparr> scale = 2, focusX = 0.3, focusY = 0.3 \<rparr>)"
proof -
  have p: "0 < SMOOTHING_FACTOR demo_params" "SMOOTHING_FACTOR demo_params < 1"
    "0 < MIN_DELTA demo_params"
    by (simp_all add: demo_params_def)
  have r: "cameraContainer demo_renderer" "layoutCache demo_renderer \<noteq> None"
    "animationState demo_renderer = \<lparr> scale = 1, focusX = 0.5, focusY = 0.5 \<rparr>"
    by (simp_all add: demo_renderer_def newFrameRenderer_def demo_params_def)
  have t: "\<forall>k::nat. animationTarget demo_params demo_renderer 2000
              = \<lparr> scale = 2, focusX = 0.3, focusY = 0.3 \<rparr>"
    by (simp add: animationTarget_def demo_params_def demo_renderer_def newFrameRenderer_def
        demo_region_def clampFocusToStage_def)
  show ?thesis
    using animation_converges [OF p r(1,2) t] p r(3) by simp
qed

section \<open>Animation driver: what a run depends on\<close>












section \<open>Frame rate resolution\<close>














section \<open>Export loop: progress reports\<close>

lemma progress_consistent_same:
  "progress_consistent n st \<Longrightarrow> frameIndex st' = frameIndex st \<Longrightarrow>
   progress st' = progress st \<Longrightarrow> progress_consistent n st'"
  by (simp add: progress_consistent_def)

lemma progress_consistent_skip:
  "progress_consistent n st \<Longrightarrow> frameIndex st' = frameIndex st + 1 \<Longrightarrow>
   progress st' = progress st \<Longrightarrow> progress_consistent n st'"
  by (auto simp add: progress_consistent_def list_all_iff)

lemma progress_consistent_report:
  assumes inv: "progress_consistent n st" and lt: "frameIndex st < n"
    and fi: "frameIndex st' = frameIndex st + 1"
    and pr: "progress st' = progress st @
       [\<lparr> currentFrame = frameIndex st + 1, totalFrames = n,
          percentage = (of_int (frameIndex st + 1) / of_int n) * 100,
          estimatedTimeRemaining = r \<rparr>]"
  shows "progress_consistent n st'"
proof -
  have pos: "0 < n" using inv lt by (simp add: progress_consistent_def)
  have le: "\<forall>p\<in>set (progress st). currentFrame p \<le> frameIndex st + 1"
    using inv by (auto simp add: progress_consistent_def list_all_iff)
  have "sorted (map currentFrame (progress st'))"
    using inv le by (simp add: pr progress_consistent_def sorted_append)
  then show ?thesis
    using inv pos fi by (auto simp add: pr progress_consistent_def list_all_iff)
qed

lemma iteration_progress:
  assumes inv: "progress_consistent (total_frames C) st" and lt: "frameIndex st < total_frames C"
  shows "progress_consistent (total_frames C) (snd (iteration C st env))"
proof -
  define st2 where "st2 = after_waits C st env"
  have k2: "frameIndex st2 = frameIndex st" "progress st2 = progress st"
    by (simp_all add: st2_def after_waits_keeps)
  obtain b st3 where aq: "awaitQueue st2 (queue_polls env) = (b, st3)"
    by (cases "awaitQueue st2 (queue_polls env)") auto
  have k3: "frameIndex st3 = frameIndex st" "progress st3 = progress st"
    using awaitQueue_keeps [of st2 "queue_polls env"] aq k2 by simp_all
  show ?thesis
  proof (cases "frame_ok env \<and> rendererAlive st2 \<and> render_error env = None \<and> b")
    case False
    then consider "\<not> frame_ok env" | "frame_ok env" "\<not> rendererAlive st2"
      | "frame_ok env" "rendererAlive st2" "render_error env \<noteq> None"
      | "frame_ok env" "rendererAlive st2" "render_error env = None" "\<not> b"
      by auto
    then show ?thesis
    proof cases
      case 1
      then show ?thesis
        using progress_consistent_skip [OF inv, of "st2\<lparr> frameIndex := frameIndex st2 + 1 \<rparr>"] k2
        by (simp add: iteration_unfold Let_def st2_def [symmetric])
    next
      case 2
      then show ?thesis
        using progress_consistent_same [OF inv, of st2] k2
        by (simp add: iteration_unfold Let_def st2_def [symmetric])
    next
      case 3
      then show ?thesis
        using progress_consistent_same [OF inv, of st2] k2
        by (auto simp add: iteration_unfold Let_def st2_def [symmetric])
    next
      case 4
      then show ?thesis
        using progress_consistent_same [OF inv, of st3] k3 aq
        by (simp add: iteration_unfold Let_def st2_def [symmetric])
    qed
  next
    case True
    define st4 where "st4 = (if encoderConfigured st3
                         then st3\<lparr> encodeQueue := encodeQueue st3 + 1,
                                  encoded := encoded st3 @ [frame_for (export_rate C) (frameIndex st)] \<rparr>
                         else st3)"
    have k4: "frameIndex st4 = frameIndex st" "progress st4 = progress st"
      using k3 by (simp_all add: st4_def)
    show ?thesis
    proof (cases "onProgress C")
      case False
      have "snd (iteration C st env) = st4\<lparr> frameIndex := frameIndex st4 + 1 \<rparr>"
        using True False aq
        by (simp add: iteration_unfold Let_def st2_def [symmetric] st4_def [symmetric])
      then show ?thesis
        using progress_consistent_skip [OF inv, of "st4\<lparr> frameIndex := frameIndex st4 + 1 \<rparr>"] k4
        by simp
    next
      case op: True
      obtain r st6 where st6: "snd (iteration C st env) = st6"
        "frameIndex st6 = frameIndex st + 1"
        "progress st6 = progress st @
           [\<lparr> currentFrame = frameIndex st + 1, totalFrames = total_frames C,
              percentage = (of_int (frameIndex st + 1) / of_int (total_frames C)) * 100,
              estimatedTimeRemaining = r \<rparr>]"
        using True op aq k4
        by (simp add: iteration_unfold Let_def st2_def [symmetric] st4_def [symmetric])
      show ?thesis
        unfolding st6(1) using progress_consistent_report [OF inv lt st6(2,3)] .
    qed
  qed
qed

lemma exportLoop_progress:
  "progress_consistent (total_frames C) st \<Longrightarrow>
   progress_consistent (total_frames C) (snd (exportLoop C st script))"
proof (induction script arbitrary: st)
  case Nil
  then show ?case by simp
next
  case (Cons env script)
  show ?case
  proof (cases "frameIndex st < total_frames C \<and> \<not> cancelled st")
    case False
    then show ?thesis using Cons.prems by auto
  next
    case True
    obtain r st1 where it: "iteration C st env = (r, st1)" by (cases "iteration C st env") auto
    have inv1: "progress_consistent (total_frames C) st1"
      using iteration_progress [OF Cons.prems, of env] True it by simp
    show ?thesis
    proof (cases r)
      case Continue
      then show ?thesis using True it Cons.IH [OF inv1] by simp
    next
      case (Throws msg)
      then show ?thesis using True it inv1 by simp
    next
      case Hangs
      then show ?thesis using True it inv1 by simp
    qed
  qed
qed

lemma progress_consistent_sorted:
  assumes "progress_consistent n st"
  shows "sorted (map currentFrame (progress st)) \<and> sorted (map percentage (progress st))
         \<and> list_all (\<lambda>p. totalFrames p = n) (progress st)"
proof -
  have s: "sorted_wrt (\<lambda>p q. currentFrame p \<le> currentFrame q) (progress st)"
    using assms by (simp add: progress_consistent_def sorted_map)
  have "\<And>p q. p \<in> set (progress st) \<Longrightarrow> q \<in> set (progress st) \<Longrightarrow>
      currentFrame p \<le> currentFrame q \<Longrightarrow> percentage p \<le> percentage q"
  proof -
    fix p q assume "p \<in> set (progress st)" "q \<in> set (progress st)"
      and le: "currentFrame p \<le> currentFrame q"
    then have p: "percentage p = (of_int (currentFrame p) / of_int n) * 100"
      and q: "percentage q = (of_int (currentFrame q) / of_int n) * 100" and n: "0 < n"
      using assms by (auto simp add: progress_consistent_def list_all_iff)
    have "(of_int (currentFrame p) :: real) \<le> of_int (currentFrame q)" using le by simp
    then show "percentage p \<le> percentage q"
      using n by (simp add: p q divide_right_mono)
  qed
  then have "sorted_wrt (\<lambda>p q. percentage p \<le> percentage q) (progress st)"
    using sorted_wrt_mono_rel [OF _ s, of "\<lambda>p q. percentage p \<le> percentage q"] by blast
  then show ?thesis
    using assms by (auto simp add: progress_consistent_def sorted_map list_all_iff)
qed

lemma loop_start_progress: "progress_consistent n (loop_start dur E)"
  by (simp add: loop_start_def Let_def progress_consistent_def deliverAll_keeps)

lemma export_run_trace:
  "(progress (snd (export_run r cb E script)) = [] \<and> frameIndex (snd (export_run r cb E script)) = 0)
   \<or> (\<exists>videoInfo. load_result E = Inr videoInfo
        \<and> progress (snd (export_run r cb E script)) =
            progress (snd (exportLoop (setup_of r cb E videoInfo)
                             (loop_start (duration videoInfo) E) script))
        \<and> frameIndex (snd (export_run r cb E script)) =
            frameIndex (snd (exportLoop (setup_of r cb E videoInfo)
                             (loop_start (duration videoInfo) E) script)))"
  by (simp add: export_run_def Let_def cleanup_keeps deliverAll_keeps
      split: sum.split option.split loop_end.split prod.split)

text \<open>
  Claim C9. Within a single export run, whatever happens during it, the progress
  callbacks made are in non-decreasing order of \<open>currentFrame\<close> and of \<open>percentage\<close>, and
  \<open>totalFrames\<close> is the same in all of them: each report is computed from the frame
  index, which only increments.
\<close>

theorem progress_monotone:
  "sorted (map currentFrame (progress (snd (export_run r cb E script))))
   \<and> sorted (map percentage (progress (snd (export_run r cb E script))))
   \<and> (\<exists>n. list_all (\<lambda>p. totalFrames p = n) (progress (snd (export_run r cb E script))))"
proof -
  have "\<exists>n. progress_consistent n (snd (export_run r cb E script))"
    using export_run_trace [of r cb E script]
  proof
    assume "progress (snd (export_run r cb E script)) = [] \<and>
      frameIndex (snd (export_run r cb E script)) = 0"
    then show ?thesis by (simp add: progress_consistent_def)
  next
    assume "\<exists>videoInfo. load_result E = Inr videoInfo
        \<and> progress (snd (export_run r cb E script)) =
            progress (snd (exportLoop (setup_of r cb E videoInfo)
                             (loop_start (duration videoInfo) E) script))
        \<and> frameIndex (snd (export_run r cb E script)) =
            frameIndex (snd (exportLoop (setup_of r cb E videoInfo)
                             (loop_start (duration videoInfo) E) script))"
    then obtain videoInfo where
      eq: "progress (snd (export_run r cb E script)) =
            progress (snd (exportLoop (setup_of r cb E videoInfo)
                             (loop_start (duration videoInfo) E) script))"
          "frameIndex (snd (export_run r cb E script)) =
            frameIndex (snd (exportLoop (setup_of r cb E videoInfo)
                             (loop_start (duration videoInfo) E) script))"
      by blast
    have "progress_consistent (total_frames (setup_of r cb E videoInfo))
            (snd (exportLoop (setup_of r cb E videoInfo) (loop_start (duration videoInfo) E) script))"
      by (rule exportLoop_progress) (rule loop_start_progress)
    then have "progress_consistent (total_frames (setup_of r cb E videoInfo)) (snd (export_run r cb E script))"
      using eq by (simp add: progress_consistent_def)
    then show ?thesis by blast
  qed
  then show ?thesis using progress_consistent_sorted by blast
qed

text \<open>The three progress reports of the sample run.\<close>

theorem progress_monotone_witness:
  "map currentFrame (progress (snd (export_run 0 True demo_env demo_script))) = [1, 2, 3]
   \<and> map percentage (progress (snd (export_run 0 True demo_env demo_script)))
       = [100 / 3, 200 / 3, 100]
   \<and> map totalFrames (progress (snd (export_run 0 True demo_env demo_script))) = [3, 3, 3]
   \<and> sorted (map currentFrame (progress (snd (export_run 0 True demo_env demo_script))))
   \<and> sorted (map percentage (progress (snd (export_run 0 True demo_env demo_script))))"
proof -
  have "map currentFrame (progress (snd (export_run 0 True demo_env demo_script))) = [1, 2, 3]
   \<and> map percentage (progress (snd (export_run 0 True demo_env demo_script)))
       = [100 / 3, 200 / 3, 100]
   \<and> map totalFrames (progress (snd (export_run 0 True demo_env demo_script))) = [3, 3, 3]"
    by (simp add: export_run_def setup_of_def double_mul_def toDouble_def roundTiesToEven_def
        binade_half binade_unit loop_start_def seekToTime_def clampedTime_def
        iteration_def cleanup_def js_rem_def trunc_def MAX_ENCODE_QUEUE_def Let_def
        demo_env_def demo_info_def demo_script_def smooth_at_def)
  then show ?thesis
    using progress_monotone [of 0 True demo_env demo_script] by blast
qed

section \<open>Export loop: the frames handed to the encoder\<close>


lemma deliver_sticky: "cancelled st \<Longrightarrow> cancelled (deliver e st)"
  by (cases e) (simp_all add: cleanup_def)


lemma deliverAll_sticky: "cancelled st \<Longrightarrow> cancelled (deliverAll es st)"
  by (induction es arbitrary: st) (simp_all add: deliver_sticky)


lemma awaitQueue_sticky: "cancelled st \<Longrightarrow> cancelled (snd (awaitQueue st polls))"
  by (cases polls) simp_all


lemma after_waits_sticky: "cancelled st \<Longrightarrow> cancelled (after_waits C st env)"
  by (simp add: after_waits_def Let_def deliverAll_sticky split: option.split)


















section \<open>Export: the result of a cancelled run\<close>













end
